theory Spec2Isabelle
  imports Complex_Main "HOL-Library.Sublist"
begin

section \<open>The offline cache manager of the BharatVRsh service worker (sw.js)\<close>

text \<open>
  The worker is event driven: each listener runs a handler over two pieces of platform
  state, the cache storage (named caches of request/response pairs) and the network.
  The embedding passes that state explicitly. A handler takes the environment (what the
  network answers, how a URL string is parsed) and the state, and returns its completion
  value together with the new state. A rejected promise or a thrown exception is the
  \<open>Inl\<close> branch of a sum; the JavaScript value \<open>undefined\<close> is \<open>None\<close>.
\<close>

subsection \<open>Requests, responses, URLs\<close>

text \<open>
  \<open>new URL(request.url)\<close>: the parts of a parsed URL the worker reads. \<open>protocol\<close>
  keeps its trailing colon, as in the URL API (\<open>''https:''\<close>).
\<close>

record url =
  protocol :: string
  hostname :: string
  pathname :: string
  search :: string

record request =
  url :: url
  "method" :: string
  mode :: string
  body :: string

record response =
  status :: nat
  content_type :: string
  vary :: "string list"
  payload :: string

text \<open>
  \<open>vary\<close> holds the field values of the \<open>Vary\<close> header, none when the header is
  absent. \<open>response.ok\<close>: the status is in the range 200 to 299.
\<close>

definition ok :: "response \<Rightarrow> bool" where
  "ok r = (200 \<le> status r \<and> status r \<le> 299)"

datatype error = NetworkError | TypeError

subsection \<open>Tier names and tables\<close>

definition CACHE_NAME :: string where
  "CACHE_NAME = ''bharatvrsh-v1.2.0''"

definition STATIC_CACHE :: string where
  "STATIC_CACHE = ''bharatvrsh-static-v1.2.0''"

definition DYNAMIC_CACHE :: string where
  "DYNAMIC_CACHE = ''bharatvrsh-dynamic-v1.2.0''"

definition HERITAGE_CACHE :: string where
  "HERITAGE_CACHE = ''bharatvrsh-heritage-v1.2.0''"

definition STATIC_ASSETS :: "string list" where
  "STATIC_ASSETS =
    [''/'',
     ''/index.html'',
     ''/manifest.json'',
     ''/styles/main.css'',
     ''/styles/heritage.css'',
     ''/styles/ar-viewer.css'',
     ''/scripts/app.js'',
     ''/scripts/ar-viewer.js'',
     ''/scripts/heritage-sites.js'',
     ''/scripts/tours.js'',
     ''/scripts/utils.js'',
     ''/assets/logo.svg'',
     ''/assets/favicon.ico'',
     ''/assets/icons/icon-192x192.png'',
     ''/assets/icons/icon-512x512.png'',
     ''https://fonts.googleapis.com/css2?family=Inter:wght@300;400;500;600;700&family=Playfair+Display:wght@400;600;700&display=swap'',
     ''https://fonts.googleapis.com/icon?family=Material+Icons'',
     ''https://cdnjs.cloudflare.com/ajax/libs/three.js/r128/three.min.js'']"

definition API_ENDPOINTS :: "string list" where
  "API_ENDPOINTS = [''/api/heritage/sites'', ''/api/tours'', ''/api/guides'']"

subsection \<open>The cache storage\<close>

text \<open>
  One cache is a list of entries in insertion order, keyed by the request URL;
  \<open>cache.keys()\<close> enumerates it in that order. \<open>cache.put\<close> drops the entry stored
  under the same key and appends the new one; \<open>cache.delete\<close> drops the entry.
  The cache storage is the list of named caches in creation order.
\<close>

type_synonym cache = "(url \<times> response) list"

type_synonym cache_storage = "(string \<times> cache) list"

definition cache_match :: "cache \<Rightarrow> url \<Rightarrow> response option" where
  "cache_match c k = map_of c k"

definition cache_delete :: "cache \<Rightarrow> url \<Rightarrow> cache" where
  "cache_delete c k = filter (\<lambda>e. fst e \<noteq> k) c"

definition cache_put :: "cache \<Rightarrow> url \<Rightarrow> response \<Rightarrow> cache" where
  "cache_put c k r = cache_delete c k @ [(k, r)]"

definition cache_keys :: "cache \<Rightarrow> url list" where
  "cache_keys c = map fst c"

text \<open>\<open>caches.keys()\<close>: the names of the caches that exist.\<close>

definition storage_keys :: "cache_storage \<Rightarrow> string list" where
  "storage_keys cs = map fst cs"

text \<open>\<open>caches.open(name)\<close> creates the cache when it does not exist yet.\<close>

definition storage_open :: "cache_storage \<Rightarrow> string \<Rightarrow> cache_storage" where
  "storage_open cs name = (if name \<in> set (storage_keys cs) then cs else cs @ [(name, [])])"

text \<open>The entries of a named cache; a cache that does not exist has none.\<close>

definition tier :: "cache_storage \<Rightarrow> string \<Rightarrow> cache" where
  "tier cs name = (case map_of cs name of None \<Rightarrow> [] | Some c \<Rightarrow> c)"

definition storage_update :: "cache_storage \<Rightarrow> string \<Rightarrow> (cache \<Rightarrow> cache) \<Rightarrow> cache_storage" where
  "storage_update cs name f = map (\<lambda>(n, c). if n = name then (n, f c) else (n, c)) cs"

text \<open>\<open>caches.delete(name)\<close>.\<close>

definition storage_delete :: "cache_storage \<Rightarrow> string \<Rightarrow> cache_storage" where
  "storage_delete cs name = filter (\<lambda>e. fst e \<noteq> name) cs"

text \<open>
  \<open>caches.match(request)\<close> asks every cache in creation order and answers with the
  first hit, \<open>undefined\<close> when there is none.
\<close>

fun storage_match :: "cache_storage \<Rightarrow> url \<Rightarrow> response option" where
  "storage_match [] k = None"
| "storage_match ((n, c) # cs) k =
     (case cache_match c k of Some r \<Rightarrow> Some r | None \<Rightarrow> storage_match cs k)"

subsection \<open>State and environment\<close>

text \<open>
  The effects a handler has on the platform are recorded in order: a network call, a
  cache lookup, a write that landed, a delete, and the line the queue stub prints.
\<close>

datatype event =
    Fetch request
  | Match url
  | Put string url response
  | Delete string url
  | WouldRemove string nat


record sw_state =
  caches :: cache_storage
  trace :: "event list"

text \<open>
  \<open>network\<close>: what \<open>fetch\<close> settles with, \<open>None\<close> when the promise rejects.
  \<open>parse_url\<close>: the URL parser applied to a string relative to the worker's location,
  \<open>None\<close> when the string is no URL.
\<close>

record env =
  network :: "request \<Rightarrow> response option"
  parse_url :: "string \<Rightarrow> url option"

definition emit :: "event \<Rightarrow> sw_state \<Rightarrow> sw_state" where
  "emit e st = st\<lparr>trace := trace st @ [e]\<rparr>"

subsection \<open>Activation\<close>

text \<open>
  The activate listener maps over \<open>caches.keys()\<close> and deletes every cache whose name is
  none of the three tier names.
\<close>

definition activate_step :: "string \<Rightarrow> cache_storage \<Rightarrow> cache_storage" where
  "activate_step cacheName cs =
     (if cacheName \<noteq> STATIC_CACHE \<and> cacheName \<noteq> DYNAMIC_CACHE \<and> cacheName \<noteq> HERITAGE_CACHE
      then storage_delete cs cacheName else cs)"

definition activate :: "sw_state \<Rightarrow> sw_state" where
  "activate st = st\<lparr>caches := fold activate_step (storage_keys (caches st)) (caches st)\<rparr>"

subsection \<open>Effects\<close>

text \<open>\<open>fetch(request)\<close>: one network call.\<close>

definition fetch :: "env \<Rightarrow> request \<Rightarrow> sw_state \<Rightarrow> response option \<times> sw_state" where
  "fetch e req st = (network e req, emit (Fetch req) st)"

text \<open>
  \<open>caches.match(request)\<close>: a request whose method is not GET matches nothing.
\<close>

definition caches_match :: "request \<Rightarrow> sw_state \<Rightarrow> response option \<times> sw_state" where
  "caches_match req st =
     ((if method req = ''GET'' then storage_match (caches st) (url req) else None),
      emit (Match (url req)) st)"

text \<open>
  \<open>caches.match('/index.html')\<close>: the string is parsed against the worker's location
  and looked up as a GET request.
\<close>

definition get_request :: "url \<Rightarrow> request" where
  "get_request u = \<lparr>url = u, method = ''GET'', mode = ''cors'', body = []\<rparr>"

definition caches_match_string ::
  "env \<Rightarrow> string \<Rightarrow> sw_state \<Rightarrow> (error + response option) \<times> sw_state" where
  "caches_match_string e s st =
     (case parse_url e s of
        None \<Rightarrow> (Inl TypeError, st)
      | Some u \<Rightarrow> (case caches_match (get_request u) st of (r, st') \<Rightarrow> (Inr r, st')))"

text \<open>
  \<open>cache.put(request, response)\<close> is refused with a \<open>TypeError\<close> when the request's
  scheme is neither http nor https, when its method is not GET, when the response's
  status is 206, or when its \<open>Vary\<close> header has the value \<open>*\<close>.
\<close>

definition put_rejects :: "request \<Rightarrow> response \<Rightarrow> bool" where
  "put_rejects rq r =
     (protocol (url rq) \<notin> {''http:'', ''https:''} \<or> method rq \<noteq> ''GET'' \<or>
      status r = 206 \<or> ''*'' \<in> set (vary r))"

text \<open>
  \<open>const cache = await caches.open(name); cache.put(request, response)\<close>. The cache
  is created by the \<open>open\<close> whatever the write does afterwards. The first component
  is how the promise of the write settles. The fetch handlers do not await it: a
  rejection is lost, and an accepted write is taken to have landed when the handler is
  done.
\<close>

definition open_put ::
  "string \<Rightarrow> request \<Rightarrow> response \<Rightarrow> sw_state \<Rightarrow> (error + unit) \<times> sw_state" where
  "open_put name rq r st =
     (let st1 = st\<lparr>caches := storage_open (caches st) name\<rparr> in
      if put_rejects rq r then (Inl TypeError, st1)
      else (Inr (),
            emit (Put name (url rq) r)
              (st1\<lparr>caches := storage_update (caches st1) name (\<lambda>c. cache_put c (url rq) r)\<rparr>)))"

subsection \<open>Request classification\<close>

definition endsWith :: "string \<Rightarrow> string \<Rightarrow> bool" where
  "endsWith s x = suffix x s"

definition startsWith :: "string \<Rightarrow> string \<Rightarrow> bool" where
  "startsWith s x = prefix x s"

definition includes_str :: "string \<Rightarrow> string \<Rightarrow> bool" where
  "includes_str s x = sublist x s"

definition isStaticAsset :: "url \<Rightarrow> bool" where
  "isStaticAsset u =
     (list_ex (\<lambda>asset. endsWith (pathname u) asset) STATIC_ASSETS \<or>
      includes_str (pathname u) ''/styles/'' \<or>
      includes_str (pathname u) ''/scripts/'' \<or>
      includes_str (pathname u) ''/assets/icons/'' \<or>
      hostname u = ''fonts.googleapis.com'' \<or>
      hostname u = ''fonts.gstatic.com'' \<or>
      hostname u = ''cdnjs.cloudflare.com'')"

definition isAPIRequest :: "url \<Rightarrow> bool" where
  "isAPIRequest u =
     (startsWith (pathname u) ''/api/'' \<or>
      list_ex (\<lambda>endpoint. startsWith (pathname u) endpoint) API_ENDPOINTS)"

definition isHeritageContent :: "url \<Rightarrow> bool" where
  "isHeritageContent u =
     (includes_str (pathname u) ''/assets/images/'' \<or>
      includes_str (pathname u) ''/assets/models/'' \<or>
      includes_str (pathname u) ''/assets/audio/'' \<or>
      includes_str (pathname u) ''/assets/videos/'')"

subsection \<open>Fetch strategies\<close>

type_synonym completion = "(error + response option) \<times> sw_state"

text \<open>
  Cache first into the static tier. In the \<open>catch\<close> block the error is the rejection of
  \<open>fetch\<close>: the lookup before it does not throw.
\<close>

definition handleStaticAsset :: "env \<Rightarrow> request \<Rightarrow> sw_state \<Rightarrow> completion" where
  "handleStaticAsset e req st =
     (case caches_match req st of
        (Some cacheResponse, st1) \<Rightarrow> (Inr (Some cacheResponse), st1)
      | (None, st1) \<Rightarrow>
         (case fetch e req st1 of
            (Some networkResponse, st2) \<Rightarrow>
              (Inr (Some networkResponse),
               if ok networkResponse then snd (open_put STATIC_CACHE req networkResponse st2)
               else st2)
          | (None, st2) \<Rightarrow>
             (case caches_match req st2 of
                (Some cacheResponse, st3) \<Rightarrow> (Inr (Some cacheResponse), st3)
              | (None, st3) \<Rightarrow>
                  if mode req = ''navigate'' then caches_match_string e ''/offline.html'' st3
                  else (Inl NetworkError, st3))))"

text \<open>The body of the synthesized answer: \<open>JSON.stringify\<close> of the two-field object.\<close>

definition offline_api_response :: response where
  \<open>offline_api_response =
     \<lparr>status = 503, content_type = ''application/json'', vary = [],
      payload = ''{"error":"Offline","message":"This request is not available offline"}''\<rparr>\<close>

text \<open>Network first into the dynamic tier, with a synthesized answer as the last resort.\<close>

definition handleAPIRequest :: "env \<Rightarrow> request \<Rightarrow> sw_state \<Rightarrow> completion" where
  "handleAPIRequest e req st =
     (case fetch e req st of
        (Some networkResponse, st1) \<Rightarrow>
          (Inr (Some networkResponse),
           if ok networkResponse \<and> method req = ''GET''
           then snd (open_put DYNAMIC_CACHE req networkResponse st1)
           else st1)
      | (None, st1) \<Rightarrow>
         (case caches_match req st1 of
            (Some cacheResponse, st2) \<Rightarrow> (Inr (Some cacheResponse), st2)
          | (None, st2) \<Rightarrow> (Inr (Some offline_api_response), st2)))"

text \<open>Cache first into the heritage tier.\<close>

definition handleHeritageContent :: "env \<Rightarrow> request \<Rightarrow> sw_state \<Rightarrow> completion" where
  "handleHeritageContent e req st =
     (case caches_match req st of
        (Some cacheResponse, st1) \<Rightarrow> (Inr (Some cacheResponse), st1)
      | (None, st1) \<Rightarrow>
         (case fetch e req st1 of
            (Some networkResponse, st2) \<Rightarrow>
              (Inr (Some networkResponse),
               if ok networkResponse then snd (open_put HERITAGE_CACHE req networkResponse st2)
               else st2)
          | (None, st2) \<Rightarrow>
             (case caches_match req st2 of
                (Some cacheResponse, st3) \<Rightarrow> (Inr (Some cacheResponse), st3)
              | (None, st3) \<Rightarrow> (Inl NetworkError, st3))))"

text \<open>
  The operands of \<open>||\<close> in the navigation fallback: the left one is the promise that
  \<open>caches.match\<close> returns (it is not awaited there), the right one a \<open>Response\<close> object.
  Both are objects, and every object is truthy. \<open>a || b\<close> is \<open>a\<close> when \<open>a\<close> is truthy.
  Returning the operand from the async function settles it: a promise with what it
  resolves to, an object with itself.
\<close>

datatype operand = PromiseOf "response option" | ResponseObject response

fun truthy :: "operand \<Rightarrow> bool" where
  "truthy (PromiseOf p) = True"
| "truthy (ResponseObject r) = True"

definition js_or :: "operand \<Rightarrow> operand \<Rightarrow> operand" where
  "js_or a b = (if truthy a then a else b)"

fun settle :: "operand \<Rightarrow> response option" where
  "settle (PromiseOf p) = p"
| "settle (ResponseObject r) = Some r"

definition offline_page :: response where
  "offline_page =
     \<lparr>status = 200, content_type = ''text/html'', vary = [],
      payload = ''<!DOCTYPE html><html><head><title>Offline</title></head><body><h1>Offline</h1><p>Please check your internet connection.</p></body></html>''\<rparr>"

text \<open>Network first, then the cached shell, then the fallback expression.\<close>

definition handleNavigation :: "env \<Rightarrow> request \<Rightarrow> sw_state \<Rightarrow> completion" where
  "handleNavigation e req st =
     (case fetch e req st of
        (Some networkResponse, st1) \<Rightarrow> (Inr (Some networkResponse), st1)
      | (None, st1) \<Rightarrow>
         (case caches_match_string e ''/index.html'' st1 of
            (Inl err, st2) \<Rightarrow> (Inl err, st2)
          | (Inr (Some cacheResponse), st2) \<Rightarrow> (Inr (Some cacheResponse), st2)
          | (Inr None, st2) \<Rightarrow>
             (case caches_match_string e ''/offline.html'' st2 of
                (Inl err, st3) \<Rightarrow> (Inl err, st3)
              | (Inr p, st3) \<Rightarrow>
                  (Inr (settle (js_or (PromiseOf p) (ResponseObject offline_page))), st3))))"

text \<open>Network first into the dynamic tier; the failure is rethrown when nothing is cached.\<close>

definition handleDefault :: "env \<Rightarrow> request \<Rightarrow> sw_state \<Rightarrow> completion" where
  "handleDefault e req st =
     (case fetch e req st of
        (Some networkResponse, st1) \<Rightarrow>
          (Inr (Some networkResponse),
           if ok networkResponse then snd (open_put DYNAMIC_CACHE req networkResponse st1)
           else st1)
      | (None, st1) \<Rightarrow>
         (case caches_match req st1 of
            (Some cacheResponse, st2) \<Rightarrow> (Inr (Some cacheResponse), st2)
          | (None, st2) \<Rightarrow> (Inl NetworkError, st2)))"

definition handleFetchRequest :: "env \<Rightarrow> request \<Rightarrow> sw_state \<Rightarrow> completion" where
  "handleFetchRequest e req st =
     (if isStaticAsset (url req) then handleStaticAsset e req st
      else if isAPIRequest (url req) then handleAPIRequest e req st
      else if isHeritageContent (url req) then handleHeritageContent e req st
      else if mode req = ''navigate'' then handleNavigation e req st
      else handleDefault e req st)"

text \<open>
  The fetch listener. When it returns without calling \<open>event.respondWith\<close> the worker
  has not touched the request and the browser carries it out over the network itself.
\<close>

datatype disposition = NotIntercepted | RespondWith "error + response option"

definition fetch_listener :: "env \<Rightarrow> request \<Rightarrow> sw_state \<Rightarrow> disposition \<times> sw_state" where
  "fetch_listener e req st =
     (if method req \<noteq> ''GET'' then (NotIntercepted, st)
      else if \<not> startsWith (protocol (url req)) ''http'' then (NotIntercepted, st)
      else (case handleFetchRequest e req st of (r, st') \<Rightarrow> (RespondWith r, st')))"

subsection \<open>Deferred action queues\<close>








subsection \<open>Caching a heritage site on request\<close>

text \<open>
  The payload of a \<open>CACHE_HERITAGE_SITE\<close> message. A field that is absent or \<open>null\<close> is
  \<open>None\<close>.
\<close>

record site_data =
  site_id :: string
  imageUrl :: "string option"
  thumbnailUrl :: "string option"
  modelUrl :: "string option"
  audioUrls :: "string option list option"

text \<open>\<open>.filter(Boolean)\<close>: \<open>undefined\<close>, \<open>null\<close> and the empty string are falsy.\<close>

fun filter_Boolean :: "string option list \<Rightarrow> string list" where
  "filter_Boolean [] = []"
| "filter_Boolean (None # xs) = filter_Boolean xs"
| "filter_Boolean (Some s # xs) = (if s = [] then filter_Boolean xs else s # filter_Boolean xs)"

definition urlsToCache :: "site_data \<Rightarrow> string list" where
  "urlsToCache siteData =
     filter_Boolean
       ([imageUrl siteData, thumbnailUrl siteData, modelUrl siteData] @
        (case audioUrls siteData of None \<Rightarrow> [] | Some urls \<Rightarrow> urls))"

text \<open>
  One element of the \<open>Promise.all\<close>:
  \<open>fetch(url).then(response => { if (response.ok) return cache.put(url, response) }).catch(log)\<close>.
  The write is returned into the chain, so the \<open>catch\<close> receives the rejection of the
  fetch and the rejection of the write alike, logs it, and the element is fulfilled.
  The promises of a bundle are taken in the order of the array.
\<close>

definition cache_url :: "env \<Rightarrow> string \<Rightarrow> sw_state \<Rightarrow> sw_state" where
  "cache_url e s st =
     (case parse_url e s of
        None \<Rightarrow> st
      | Some u \<Rightarrow>
         (case fetch e (get_request u) st of
            (Some r, st1) \<Rightarrow>
              if ok r then
                (case open_put HERITAGE_CACHE (get_request u) r st1 of
                   (Inl err, st2) \<Rightarrow> st2
                 | (Inr written, st2) \<Rightarrow> st2)
              else st1
          | (None, st1) \<Rightarrow> st1))"

text \<open>
  The \<open>try\<close> block after the cache is opened: reading a field of a payload that is
  \<open>undefined\<close> or \<open>null\<close> throws.
\<close>

definition cacheHeritageSite_try :: "env \<Rightarrow> site_data option \<Rightarrow> sw_state \<Rightarrow> error + sw_state" where
  "cacheHeritageSite_try e siteData st =
     (case siteData of
        None \<Rightarrow> Inl TypeError
      | Some sd \<Rightarrow> Inr (fold (cache_url e) (urlsToCache sd) st))"

definition cacheHeritageSite :: "env \<Rightarrow> site_data option \<Rightarrow> sw_state \<Rightarrow> (error + unit) \<times> sw_state" where
  "cacheHeritageSite e siteData st =
     (let st1 = st\<lparr>caches := storage_open (caches st) HERITAGE_CACHE\<rparr> in
      case cacheHeritageSite_try e siteData st1 of
        Inl err \<Rightarrow> (Inr (), st1)
      | Inr st2 \<Rightarrow> (Inr (), st2))"

subsection \<open>Cache size management\<close>

definition MAX_CACHE_SIZE :: nat where
  "MAX_CACHE_SIZE = 100 * 1024 * 1024"

text \<open>
  \<open>Math.floor(requests.length * 0.2)\<close>. The source multiplies in binary floating point;
  for every length a cache can have the floor agrees with the exact product.
\<close>

definition deleteCount :: "nat \<Rightarrow> nat" where
  "deleteCount n = nat \<lfloor>real n * 0.2\<rfloor>"

text \<open>\<open>dynamicCache.delete(request)\<close> on the cache object opened under \<open>name\<close>.\<close>

definition delete_entry :: "string \<Rightarrow> url \<Rightarrow> sw_state \<Rightarrow> sw_state" where
  "delete_entry name k st =
     emit (Delete name k)
       (st\<lparr>caches := storage_update (caches st) name (\<lambda>c. cache_delete c k)\<rparr>)"

text \<open>
  \<open>estimate\<close> is the \<open>usage\<close> that \<open>navigator.storage.estimate()\<close> reports, \<open>None\<close> when
  the promise rejects: the \<open>catch\<close> logs and nothing else happens.
\<close>

definition manageCacheSize :: "nat option \<Rightarrow> sw_state \<Rightarrow> sw_state" where
  "manageCacheSize estimate st =
     (case estimate of
        None \<Rightarrow> st
      | Some usage \<Rightarrow>
          if usage > MAX_CACHE_SIZE then
            (let st1 = st\<lparr>caches := storage_open (caches st) DYNAMIC_CACHE\<rparr>;
                 requests = cache_keys (tier (caches st1) DYNAMIC_CACHE);
                 deleteCount = deleteCount (length requests)
             in fold (delete_entry DYNAMIC_CACHE) (take deleteCount requests) st1)
          else st)"

subsection \<open>Vocabulary of the properties\<close>

definition current_tiers :: "string set" where
  "current_tiers = {STATIC_CACHE, DYNAMIC_CACHE, HERITAGE_CACHE}"

text \<open>The naming scheme of the tiers: application, tier, build tag.\<close>

definition versioned_name :: "string \<Rightarrow> string \<Rightarrow> string" where
  "versioned_name kind tag = ''bharatvrsh-'' @ kind @ ''-'' @ tag"


text \<open>
  The URL a bundle entry is stored under and the response stored, when it is stored:
  the string is a URL, the network answers, the status is a success and the cache
  accepts the write.
\<close>

definition stored_for :: "env \<Rightarrow> string \<Rightarrow> (url \<times> response) option" where
  "stored_for e s =
     (case parse_url e s of
        None \<Rightarrow> None
      | Some u \<Rightarrow>
         (case network e (get_request u) of
            None \<Rightarrow> None
          | Some r \<Rightarrow>
              if ok r \<and> \<not> put_rejects (get_request u) r then Some (u, r) else None))"

text \<open>The network calls among the events of a trace.\<close>

fun fetches :: "event list \<Rightarrow> request list" where
  "fetches [] = []"
| "fetches (Fetch rq # es) = rq # fetches es"
| "fetches (ev # es) = fetches es"

subsection \<open>Concrete inputs\<close>

definition site_url :: "string \<Rightarrow> url" where
  "site_url path = \<lparr>protocol = ''https:'', hostname = ''bharatvrsh.example'', pathname = path, search = []\<rparr>"

definition page_200 :: response where
  "page_200 = \<lparr>status = 200, content_type = ''text/plain'', vary = [], payload = ''live''\<rparr>"

definition page_404 :: response where
  "page_404 = \<lparr>status = 404, content_type = ''text/plain'', vary = [], payload = ''missing''\<rparr>"

definition page_old :: response where
  "page_old = \<lparr>status = 200, content_type = ''text/plain'', vary = [], payload = ''cached''\<rparr>"

text \<open>A partial answer, as a request with a \<open>Range\<close> header gets it.\<close>

definition page_206 :: response where
  "page_206 = \<lparr>status = 206, content_type = ''text/plain'', vary = [], payload = ''part''\<rparr>"

definition env_online :: env where
  "env_online = \<lparr>network = (\<lambda>rq. Some page_200), parse_url = (\<lambda>s. Some (site_url s))\<rparr>"


definition env_offline :: env where
  "env_offline = \<lparr>network = (\<lambda>rq. None), parse_url = (\<lambda>s. Some (site_url s))\<rparr>"

text \<open>
  A network on which one path is out of reach, one answers 404 and one answers 206.
\<close>

definition env_patchy :: env where
  "env_patchy =
     \<lparr>network = (\<lambda>rq. if pathname (url rq) = ''/assets/images/a.jpg'' then None
                       else if pathname (url rq) = ''/assets/models/m.glb'' then Some page_404
                       else if pathname (url rq) = ''/assets/audio/p.mp3'' then Some page_206
                       else Some page_200),
      parse_url = (\<lambda>s. Some (site_url s))\<rparr>"

definition st_empty :: sw_state where
  "st_empty = \<lparr>caches = [], trace = []\<rparr>"

definition st_warm :: sw_state where
  "st_warm =
     \<lparr>caches =
        [(STATIC_CACHE, [(site_url ''/styles/main.css'', page_old)]),
         (DYNAMIC_CACHE,
          [(site_url ''/p1'', page_old), (site_url ''/p2'', page_old), (site_url ''/p3'', page_old),
           (site_url ''/p4'', page_old), (site_url ''/p5'', page_old), (site_url ''/p6'', page_old)]),
         (HERITAGE_CACHE, [(site_url ''/assets/images/b.jpg'', page_old)])],
      trace = []\<rparr>"

definition st_upgraded :: sw_state where
  "st_upgraded =
     \<lparr>caches =
        [(''bharatvrsh-static-v1.1.0'', [(site_url ''/styles/main.css'', page_old)]),
         (STATIC_CACHE, [(site_url ''/styles/main.css'', page_200)]),
         (CACHE_NAME, [])],
      trace = []\<rparr>"


definition css_request :: request where
  "css_request = \<lparr>url = site_url ''/styles/main.css'', method = ''GET'', mode = ''no-cors'', body = []\<rparr>"


definition nav_request :: request where
  "nav_request = \<lparr>url = site_url ''/tours'', method = ''GET'', mode = ''navigate'', body = []\<rparr>"

definition feedback_post :: request where
  "feedback_post = \<lparr>url = site_url ''/api/feedback'', method = ''POST'', mode = ''cors'', body = ''{}''\<rparr>"

definition site_bundle :: site_data where
  "site_bundle =
     \<lparr>site_id = ''bateshwar'',
      imageUrl = Some ''/assets/images/a.jpg'',
      thumbnailUrl = None,
      modelUrl = Some ''/assets/models/m.glb'',
      audioUrls = Some [None, Some ''/assets/audio/p.mp3'', Some ''/assets/audio/t.mp3'']\<rparr>"




section \<open>Properties\<close>

subsection \<open>The cache storage\<close>

lemma cache_match_delete:
  "cache_match (cache_delete c k) k' = (if k' = k then None else cache_match c k')"
  by (induction c) (auto simp: cache_match_def cache_delete_def)

lemma cache_match_put:
  "cache_match (cache_put c k r) k' = (if k' = k then Some r else cache_match c k')"
proof -
  have "map_of (cache_delete c k @ [(k, r)]) k' =
        (case map_of (cache_delete c k) k' of None \<Rightarrow> map_of [(k, r)] k' | Some x \<Rightarrow> Some x)"
    by (simp add: map_add_def split: option.splits)
  then show ?thesis
    using cache_match_delete [of c k k']
    by (auto simp: cache_put_def cache_match_def split: option.splits)
qed

lemma distinct_cache_delete:
  "distinct (cache_keys c) \<Longrightarrow> distinct (cache_keys (cache_delete c k))"
  by (simp add: cache_keys_def cache_delete_def distinct_map_filter)

lemma distinct_cache_put:
  "distinct (cache_keys c) \<Longrightarrow> distinct (cache_keys (cache_put c k r))"
  by (auto simp: cache_keys_def cache_put_def cache_delete_def distinct_map_filter)

lemma map_of_storage_update:
  "map_of (storage_update cs n f) m = (if m = n then map_option f (map_of cs n) else map_of cs m)"
  by (induction cs) (auto simp: storage_update_def)

lemma map_of_storage_open:
  "map_of (storage_open cs n) m = (if m = n \<and> map_of cs n = None then Some [] else map_of cs m)"
proof (cases "n \<in> fst ` set cs")
  case True
  then have "map_of cs n \<noteq> None"
    by (simp add: map_of_eq_None_iff)
  with True show ?thesis
    by (simp add: storage_open_def storage_keys_def)
next
  case False
  then have none: "map_of cs n = None"
    by (simp add: map_of_eq_None_iff)
  have "map_of (cs @ [(n, [])]) m =
        (case map_of cs m of None \<Rightarrow> map_of [(n, [])] m | Some x \<Rightarrow> Some x)"
    by (simp add: map_add_def split: option.splits)
  with False none show ?thesis
    by (auto simp: storage_open_def storage_keys_def split: option.splits)
qed

lemma tier_storage_open: "tier (storage_open cs n) m = tier cs m"
  by (simp add: tier_def map_of_storage_open)

lemma tier_open_update:
  "tier (storage_update (storage_open cs n) n f) m = (if m = n then f (tier cs n) else tier cs m)"
  by (simp add: tier_def map_of_storage_update map_of_storage_open split: option.splits)

lemma tier_open_put:
  "tier (caches (snd (open_put n rq r st))) m =
     (if m = n \<and> \<not> put_rejects rq r then cache_put (tier (caches st) n) (url rq) r
      else tier (caches st) m)"
  by (simp add: open_put_def Let_def emit_def tier_open_update tier_storage_open)

lemma trace_open_put:
  "trace (snd (open_put n rq r st)) =
     trace st @ (if put_rejects rq r then [] else [Put n (url rq) r])"
  by (simp add: open_put_def Let_def emit_def)

lemma settled_open_put:
  "fst (open_put n rq r st) = (if put_rejects rq r then Inl TypeError else Inr ())"
  by (simp add: open_put_def Let_def)

lemma caches_emit: "caches (emit ev st) = caches st"
  by (simp add: emit_def)

lemma trace_emit: "trace (emit ev st) = trace st @ [ev]"
  by (simp add: emit_def)

subsection \<open>Activation\<close>

lemma activate_step_filter:
  "activate_step n cs = filter (\<lambda>e. fst e \<noteq> n \<or> n \<in> current_tiers) cs"
  by (auto simp: activate_step_def storage_delete_def current_tiers_def intro: filter_cong)

lemma fold_activate_step:
  "fold activate_step ns cs = filter (\<lambda>e. fst e \<in> current_tiers \<or> fst e \<notin> set ns) cs"
proof (induction ns arbitrary: cs)
  case Nil
  then show ?case by simp
next
  case (Cons n ns)
  have "fold activate_step (n # ns) cs = fold activate_step ns (activate_step n cs)"
    by simp
  also have "\<dots> = filter (\<lambda>e. fst e \<in> current_tiers \<or> fst e \<notin> set ns) (activate_step n cs)"
    by (rule Cons.IH)
  also have "\<dots> = filter (\<lambda>e. fst e \<in> current_tiers \<or> fst e \<notin> set (n # ns)) cs"
    unfolding activate_step_filter filter_filter by (rule filter_cong) auto
  finally show ?case .
qed

lemma caches_activate:
  "caches (activate st) = filter (\<lambda>e. fst e \<in> current_tiers) (caches st)"
  unfolding activate_def
  by (simp add: fold_activate_step storage_keys_def cong: filter_cong)

lemma map_of_filter_key:
  "P k \<Longrightarrow> map_of (filter (\<lambda>e. P (fst e)) xs) k = map_of xs k"
  by (induction xs) auto

lemma tier_activate:
  "n \<in> current_tiers \<Longrightarrow> tier (caches (activate st)) n = tier (caches st) n"
  by (simp add: tier_def caches_activate map_of_filter_key [where P = "\<lambda>k. k \<in> current_tiers"])

lemma old_tag_not_current:
  "tag \<noteq> ''v1.2.0'' \<Longrightarrow> kind \<in> {''static'', ''dynamic'', ''heritage''} \<Longrightarrow>
   versioned_name kind tag \<notin> current_tiers"
  by (auto simp: versioned_name_def current_tiers_def STATIC_CACHE_def DYNAMIC_CACHE_def
                 HERITAGE_CACHE_def)

lemma current_tiers_versioned:
  "current_tiers = (\<lambda>kind. versioned_name kind ''v1.2.0'') ` {''static'', ''dynamic'', ''heritage''}"
  by (simp add: versioned_name_def current_tiers_def STATIC_CACHE_def DYNAMIC_CACHE_def
                HERITAGE_CACHE_def)

text \<open>
  C9. After activation the caches that exist are the ones that existed and carry one of
  the three current tier names; each current tier keeps its entries; a tier named after
  any other build tag is gone.
\<close>

theorem activate_deletes_stale:
  "set (storage_keys (caches (activate st))) = set (storage_keys (caches st)) \<inter> current_tiers
   \<and> (\<forall>n \<in> current_tiers. tier (caches (activate st)) n = tier (caches st) n)
   \<and> (\<forall>kind \<in> {''static'', ''dynamic'', ''heritage''}. \<forall>tag. tag \<noteq> ''v1.2.0'' \<longrightarrow>
         versioned_name kind tag \<notin> set (storage_keys (caches (activate st))))"
proof (intro conjI ballI allI impI)
  show names: "set (storage_keys (caches (activate st))) =
               set (storage_keys (caches st)) \<inter> current_tiers"
    by (auto simp: caches_activate storage_keys_def)
  show "versioned_name kind tag \<notin> set (storage_keys (caches (activate st)))"
    if "kind \<in> {''static'', ''dynamic'', ''heritage''}" "tag \<noteq> ''v1.2.0''" for kind tag
    using old_tag_not_current [OF that(2) that(1)] names by simp
  show "tier (caches (activate st)) n = tier (caches st) n" if "n \<in> current_tiers" for n
    using that by (rule tier_activate)
qed

theorem activate_deletes_stale_witness:
  "STATIC_CACHE \<in> current_tiers
   \<and> ''static'' \<in> {''static'', ''dynamic'', ''heritage''} \<and> ''v1.1.0'' \<noteq> ''v1.2.0''
   \<and> versioned_name ''static'' ''v1.1.0'' \<in> set (storage_keys (caches st_upgraded))
   \<and> versioned_name ''static'' ''v1.1.0'' \<notin> set (storage_keys (caches (activate st_upgraded)))
   \<and> tier (caches (activate st_upgraded)) STATIC_CACHE = [(site_url ''/styles/main.css'', page_200)]
   \<and> set (storage_keys (caches (activate st_upgraded))) = {STATIC_CACHE}"
  using activate_deletes_stale [of st_upgraded]
  by (simp add: current_tiers_def st_upgraded_def versioned_name_def storage_keys_def tier_def
                STATIC_CACHE_def DYNAMIC_CACHE_def HERITAGE_CACHE_def CACHE_NAME_def)

subsection \<open>Fetch strategies\<close>

lemma fetches_append: "fetches (xs @ ys) = fetches xs @ fetches ys"
  by (induction xs rule: fetches.induct) auto

lemmas effect_defs = fetch_def caches_match_def caches_match_string_def

lemmas state_simps =
  tier_open_put trace_open_put caches_emit trace_emit cache_match_put

lemma static_stores_ok:
  assumes "cache_match (tier (caches (snd (handleStaticAsset e req st))) n) k = Some r"
      and "cache_match (tier (caches st) n) k \<noteq> Some r"
  shows "ok r \<and> network e req = Some r \<and> k = url req \<and> n = STATIC_CACHE"
  using assms
  by (auto simp: handleStaticAsset_def effect_defs state_simps
           split: option.splits if_splits)

lemma api_stores_ok:
  assumes "cache_match (tier (caches (snd (handleAPIRequest e req st))) n) k = Some r"
      and "cache_match (tier (caches st) n) k \<noteq> Some r"
  shows "ok r \<and> network e req = Some r \<and> k = url req \<and> n = DYNAMIC_CACHE"
  using assms
  by (auto simp: handleAPIRequest_def effect_defs state_simps
           split: option.splits if_splits)

lemma heritage_stores_ok:
  assumes "cache_match (tier (caches (snd (handleHeritageContent e req st))) n) k = Some r"
      and "cache_match (tier (caches st) n) k \<noteq> Some r"
  shows "ok r \<and> network e req = Some r \<and> k = url req \<and> n = HERITAGE_CACHE"
  using assms
  by (auto simp: handleHeritageContent_def effect_defs state_simps
           split: option.splits if_splits)

lemma default_stores_ok:
  assumes "cache_match (tier (caches (snd (handleDefault e req st))) n) k = Some r"
      and "cache_match (tier (caches st) n) k \<noteq> Some r"
  shows "ok r \<and> network e req = Some r \<and> k = url req \<and> n = DYNAMIC_CACHE"
  using assms
  by (auto simp: handleDefault_def effect_defs state_simps
           split: option.splits if_splits)

lemma navigation_stores_nothing:
  "caches (snd (handleNavigation e req st)) = caches st"
  by (auto simp: handleNavigation_def effect_defs state_simps
           split: option.splits if_splits sum.splits)

lemma dispatch_is_handler:
  "handleFetchRequest e req st = handleStaticAsset e req st
   \<or> handleFetchRequest e req st = handleAPIRequest e req st
   \<or> handleFetchRequest e req st = handleHeritageContent e req st
   \<or> handleFetchRequest e req st = handleNavigation e req st
   \<or> handleFetchRequest e req st = handleDefault e req st"
  by (simp add: handleFetchRequest_def)

lemma dispatch_stores_ok:
  assumes "cache_match (tier (caches (snd (handleFetchRequest e req st))) n) k = Some r"
      and "cache_match (tier (caches st) n) k \<noteq> Some r"
  shows "ok r \<and> network e req = Some r \<and> k = url req"
proof -
  consider (1) "handleFetchRequest e req st = handleStaticAsset e req st"
    | (2) "handleFetchRequest e req st = handleAPIRequest e req st"
    | (3) "handleFetchRequest e req st = handleHeritageContent e req st"
    | (4) "handleFetchRequest e req st = handleNavigation e req st"
    | (5) "handleFetchRequest e req st = handleDefault e req st"
    using dispatch_is_handler [of e req st] by blast
  then show ?thesis
  proof cases
    case 1
    with assms static_stores_ok [of e req st n k r] show ?thesis by simp
  next
    case 2
    with assms api_stores_ok [of e req st n k r] show ?thesis by simp
  next
    case 3
    with assms heritage_stores_ok [of e req st n k r] show ?thesis by simp
  next
    case 4
    with assms navigation_stores_nothing [of e req st] show ?thesis by simp
  next
    case 5
    with assms default_stores_ok [of e req st n k r] show ?thesis by simp
  qed
qed

text \<open>
  C2. Whatever strategy handles a request, an entry that a tier holds afterwards and did
  not hold before is the network's answer to that request, stored under the request's
  URL, and its status is a success.
\<close>

theorem only_ok_responses_stored:
  assumes "h \<in> {handleStaticAsset, handleAPIRequest, handleHeritageContent, handleDefault,
                 handleNavigation, handleFetchRequest}"
      and "cache_match (tier (caches (snd (h e req st))) n) k = Some r"
      and "cache_match (tier (caches st) n) k \<noteq> Some r"
  shows "ok r \<and> network e req = Some r \<and> k = url req"
proof -
  from assms(1) consider "h = handleStaticAsset" | "h = handleAPIRequest"
    | "h = handleHeritageContent" | "h = handleDefault" | "h = handleNavigation"
    | "h = handleFetchRequest"
    unfolding insert_iff empty_iff by blast
  then show ?thesis
  proof cases
    case 1
    with assms(2,3) static_stores_ok [of e req st n k r] show ?thesis by simp
  next
    case 2
    with assms(2,3) api_stores_ok [of e req st n k r] show ?thesis by simp
  next
    case 3
    with assms(2,3) heritage_stores_ok [of e req st n k r] show ?thesis by simp
  next
    case 4
    with assms(2,3) default_stores_ok [of e req st n k r] show ?thesis by simp
  next
    case 5
    with assms(2,3) navigation_stores_nothing [of e req st] show ?thesis by simp
  next
    case 6
    with assms(2,3) dispatch_stores_ok [of e req st n k r] show ?thesis by simp
  qed
qed

theorem only_ok_responses_stored_witness:
  "cache_match (tier (caches (snd (handleFetchRequest env_online css_request st_empty))) STATIC_CACHE)
     (site_url ''/styles/main.css'') = Some page_200
   \<and> cache_match (tier (caches st_empty) STATIC_CACHE) (site_url ''/styles/main.css'') \<noteq> Some page_200
   \<and> ok page_200 \<and> network env_online css_request = Some page_200"
proof -
  have a: "handleFetchRequest \<in> {handleStaticAsset, handleAPIRequest, handleHeritageContent,
      handleDefault, handleNavigation, handleFetchRequest}"
    by simp
  have b: "cache_match (tier (caches (snd (handleFetchRequest env_online css_request st_empty))) STATIC_CACHE)
     (site_url ''/styles/main.css'') = Some page_200"
    by code_simp
  have c: "cache_match (tier (caches st_empty) STATIC_CACHE) (site_url ''/styles/main.css'') \<noteq> Some page_200"
    by code_simp
  from only_ok_responses_stored [OF a b c] b c show ?thesis by simp
qed









text \<open>
  C7. For a request whose method is not GET the fetch listener returns before
  \<open>respondWith\<close>: the request is left to the browser, and the state (every tier, and
  the record of lookups, writes and network calls) is what it was.
\<close>

theorem non_get_not_intercepted:
  "method req \<noteq> ''GET'' \<Longrightarrow> fetch_listener e req st = (NotIntercepted, st)"
  by (simp add: fetch_listener_def)

theorem non_get_not_intercepted_witness:
  "method feedback_post \<noteq> ''GET''
   \<and> fetch_listener env_online feedback_post st_warm = (NotIntercepted, st_warm)"
proof -
  have m: "method feedback_post \<noteq> ''GET''"
    by code_simp
  from non_get_not_intercepted [OF m, of env_online st_warm] m show ?thesis by simp
qed

text \<open>
  A navigation whose network call fails is answered with the cached shell when the
  shell is cached.
\<close>

lemma navigation_shell:
  assumes "network e req = None" and "parse_url e ''/index.html'' = Some u"
      and "storage_match (caches st) u = Some shell"
  shows "fst (handleNavigation e req st) = Inr (Some shell)"
  using assms
  by (simp add: handleNavigation_def effect_defs state_simps get_request_def)

text \<open>
  Without a cached shell the answer is whatever the lookup of \<open>/offline.html\<close> gives:
  the left operand of \<open>||\<close> is a promise and wins, so the inline page is never the answer.
\<close>

lemma navigation_fallback:
  assumes "network e req = None" and "parse_url e ''/index.html'' = Some u"
      and "storage_match (caches st) u = None" and "parse_url e ''/offline.html'' = Some v"
  shows "fst (handleNavigation e req st) = Inr (storage_match (caches st) v)"
  using assms
  by (simp add: handleNavigation_def effect_defs state_simps get_request_def js_or_def)

text \<open>
  C1, where it fails: the network is down and nothing is cached. The handler completes
  with \<open>undefined\<close>, not with the inline offline page.
\<close>

theorem navigation_no_shell_undefined:
  "network env_offline nav_request = None
   \<and> storage_match (caches st_empty) (site_url ''/index.html'') = None
   \<and> fst (handleNavigation env_offline nav_request st_empty) = Inr None
   \<and> fst (handleFetchRequest env_offline nav_request st_empty) = Inr None
   \<and> fst (fetch_listener env_offline nav_request st_empty) = RespondWith (Inr None)"
  by code_simp

subsection \<open>Cache size management\<close>

lemma floor_fifth: "nat \<lfloor>0.2 * real n\<rfloor> = n div 5"
proof -
  have "0.2 * real n = real n / real 5"
    by simp
  then have "\<lfloor>0.2 * real n\<rfloor> = int (n div 5)"
    by (simp only: floor_divide_of_nat_eq)
  then show ?thesis by simp
qed

lemma deleteCount_fifth: "deleteCount n = n div 5"
  using floor_fifth [of n] by (simp add: deleteCount_def mult.commute)

lemma fold_cache_delete_take:
  "distinct (map fst c) \<Longrightarrow> fold (\<lambda>k c'. cache_delete c' k) (take j (map fst c)) c = drop j c"
proof (induction c arbitrary: j)
  case Nil
  then show ?case by simp
next
  case (Cons x xs)
  show ?case
  proof (cases j)
    case 0
    then show ?thesis by simp
  next
    case (Suc i)
    from Cons.prems have "fst x \<notin> fst ` set xs" and d: "distinct (map fst xs)"
      by simp_all
    then have "\<forall>e \<in> set xs. fst e \<noteq> fst x"
      by (metis image_eqI)
    then have "filter (\<lambda>e. fst e \<noteq> fst x) xs = xs"
      by (simp add: filter_id_conv)
    then have "cache_delete (x # xs) (fst x) = xs"
      by (simp add: cache_delete_def)
    with Suc Cons.IH [OF d, of i] show ?thesis by simp
  qed
qed

lemma tier_storage_update_strict:
  "f [] = [] \<Longrightarrow>
   tier (storage_update cs n f) m = (if m = n then f (tier cs n) else tier cs m)"
  by (simp add: tier_def map_of_storage_update split: option.splits)

lemma tier_delete_entry:
  "tier (caches (delete_entry n k st)) m =
     (if m = n then cache_delete (tier (caches st) n) k else tier (caches st) m)"
  by (simp add: delete_entry_def emit_def tier_storage_update_strict cache_delete_def)

lemma storage_keys_update: "storage_keys (storage_update cs n f) = storage_keys cs"
  by (induction cs) (auto simp: storage_keys_def storage_update_def)

lemma tier_fold_delete_entry:
  "tier (caches (fold (delete_entry n) ks st)) m =
     (if m = n then fold (\<lambda>k c. cache_delete c k) ks (tier (caches st) n) else tier (caches st) m)"
  by (induction ks arbitrary: st) (simp_all add: tier_delete_entry)

lemma trace_fold_delete_entry:
  "trace (fold (delete_entry n) ks st) = trace st @ map (Delete n) ks"
  by (induction ks arbitrary: st) (simp_all add: delete_entry_def emit_def)

lemma names_fold_delete_entry:
  "storage_keys (caches (fold (delete_entry n) ks st)) = storage_keys (caches st)"
  by (induction ks arbitrary: st) (simp_all add: delete_entry_def emit_def storage_keys_update)

lemmas fold_delete_entry =
  tier_fold_delete_entry trace_fold_delete_entry names_fold_delete_entry

lemma storage_keys_open: "set (storage_keys cs) \<subseteq> set (storage_keys (storage_open cs n))"
  by (auto simp: storage_open_def storage_keys_def)

text \<open>
  The keys of a tier are distinct in every state the worker can reach: a created cache
  is empty, and a write and a delete keep the keys distinct.
\<close>

lemma open_put_keeps_distinct:
  "distinct (cache_keys (tier (caches st) n)) \<Longrightarrow>
   distinct (cache_keys (tier (caches (snd (open_put m rq r st))) n))"
  by (auto simp: tier_open_put distinct_cache_put)

lemma delete_entry_keeps_distinct:
  "distinct (cache_keys (tier (caches st) n)) \<Longrightarrow>
   distinct (cache_keys (tier (caches (delete_entry m k st)) n))"
  by (auto simp: tier_delete_entry distinct_cache_delete)

lemma tier_names_differ:
  "STATIC_CACHE \<noteq> DYNAMIC_CACHE" "HERITAGE_CACHE \<noteq> DYNAMIC_CACHE" "STATIC_CACHE \<noteq> HERITAGE_CACHE"
  by (simp_all add: STATIC_CACHE_def DYNAMIC_CACHE_def HERITAGE_CACHE_def)

lemma governor_over_ceiling:
  assumes "distinct (cache_keys (tier (caches st) DYNAMIC_CACHE))" and "usage > MAX_CACHE_SIZE"
  shows "tier (caches (manageCacheSize (Some usage) st)) DYNAMIC_CACHE =
           drop (nat \<lfloor>0.2 * real (length (tier (caches st) DYNAMIC_CACHE))\<rfloor>)
             (tier (caches st) DYNAMIC_CACHE)"
    and "trace (manageCacheSize (Some usage) st) =
           trace st @ map (Delete DYNAMIC_CACHE)
             (take (nat \<lfloor>0.2 * real (length (tier (caches st) DYNAMIC_CACHE))\<rfloor>)
                (cache_keys (tier (caches st) DYNAMIC_CACHE)))"
proof -
  let ?dyn = "tier (caches st) DYNAMIC_CACHE"
  let ?k = "nat \<lfloor>0.2 * real (length ?dyn)\<rfloor>"
  have k: "deleteCount (length (cache_keys ?dyn)) = ?k"
    by (simp add: deleteCount_def cache_keys_def mult.commute)
  have "fold (\<lambda>k c. cache_delete c k) (take ?k (cache_keys ?dyn)) ?dyn = drop ?k ?dyn"
    using assms(1) fold_cache_delete_take [of ?dyn ?k] by (simp add: cache_keys_def)
  with assms(2) show "tier (caches (manageCacheSize (Some usage) st)) DYNAMIC_CACHE = drop ?k ?dyn"
    by (simp add: manageCacheSize_def Let_def k fold_delete_entry tier_storage_open)
  from assms(2) show "trace (manageCacheSize (Some usage) st) =
      trace st @ map (Delete DYNAMIC_CACHE) (take ?k (cache_keys ?dyn))"
    by (simp add: manageCacheSize_def Let_def k fold_delete_entry tier_storage_open)
qed

text \<open>
  C5. With usage above the ceiling the dynamic tier loses its first
  \<open>\<lfloor>0.2 \<times> n\<rfloor>\<close> entries in insertion order, \<open>n\<close> being its size before, and keeps the
  rest in order; the deletes requested are for exactly those keys. With usage at or
  below the ceiling, or with no estimate, nothing changes at all.
\<close>

theorem governor_evicts_oldest_fifth:
  assumes "distinct (cache_keys (tier (caches st) DYNAMIC_CACHE))"
  shows "(usage > MAX_CACHE_SIZE \<longrightarrow>
            tier (caches (manageCacheSize (Some usage) st)) DYNAMIC_CACHE =
              drop (nat \<lfloor>0.2 * real (length (tier (caches st) DYNAMIC_CACHE))\<rfloor>)
                (tier (caches st) DYNAMIC_CACHE)
          \<and> length (tier (caches (manageCacheSize (Some usage) st)) DYNAMIC_CACHE) =
              length (tier (caches st) DYNAMIC_CACHE) -
              nat \<lfloor>0.2 * real (length (tier (caches st) DYNAMIC_CACHE))\<rfloor>
          \<and> trace (manageCacheSize (Some usage) st) =
              trace st @ map (Delete DYNAMIC_CACHE)
                (take (nat \<lfloor>0.2 * real (length (tier (caches st) DYNAMIC_CACHE))\<rfloor>)
                   (cache_keys (tier (caches st) DYNAMIC_CACHE))))
       \<and> (usage \<le> MAX_CACHE_SIZE \<longrightarrow> manageCacheSize (Some usage) st = st)
       \<and> manageCacheSize None st = st"
proof -
  have small: "usage \<le> MAX_CACHE_SIZE \<Longrightarrow> manageCacheSize (Some usage) st = st"
    by (simp add: manageCacheSize_def)
  have none: "manageCacheSize None st = st"
    by (simp add: manageCacheSize_def)
  from governor_over_ceiling [OF assms, of usage] small none show ?thesis by simp
qed

theorem governor_evicts_oldest_fifth_witness:
  "distinct (cache_keys (tier (caches st_warm) DYNAMIC_CACHE))
   \<and> 200000000 > MAX_CACHE_SIZE
   \<and> length (tier (caches st_warm) DYNAMIC_CACHE) = 6
   \<and> tier (caches (manageCacheSize (Some 200000000) st_warm)) DYNAMIC_CACHE =
       [(site_url ''/p2'', page_old), (site_url ''/p3'', page_old), (site_url ''/p4'', page_old),
        (site_url ''/p5'', page_old), (site_url ''/p6'', page_old)]
   \<and> trace (manageCacheSize (Some 200000000) st_warm) = [Delete DYNAMIC_CACHE (site_url ''/p1'')]
   \<and> (5::nat) \<le> MAX_CACHE_SIZE \<and> manageCacheSize (Some 5) st_warm = st_warm"
proof -
  have d: "distinct (cache_keys (tier (caches st_warm) DYNAMIC_CACHE))"
    by code_simp
  have dyn: "tier (caches st_warm) DYNAMIC_CACHE =
       [(site_url ''/p1'', page_old), (site_url ''/p2'', page_old), (site_url ''/p3'', page_old),
        (site_url ''/p4'', page_old), (site_url ''/p5'', page_old), (site_url ''/p6'', page_old)]"
    by code_simp
  have tr: "trace st_warm = []"
    by code_simp
  have m: "MAX_CACHE_SIZE = 104857600"
    by (simp add: MAX_CACHE_SIZE_def)
  from governor_evicts_oldest_fifth [OF d, of 200000000]
       governor_evicts_oldest_fifth [OF d, of 5] d
  show ?thesis
    by (simp add: dyn tr m floor_fifth cache_keys_def)
qed

text \<open>
  C6. Whatever the estimate and whatever the state, a run of the governor leaves the
  static tier and the heritage tier, and every cache other than the dynamic one, with
  the entries they had; no cache disappears.
\<close>

theorem governor_spares_other_tiers:
  "tier (caches (manageCacheSize estimate st)) STATIC_CACHE = tier (caches st) STATIC_CACHE
   \<and> tier (caches (manageCacheSize estimate st)) HERITAGE_CACHE = tier (caches st) HERITAGE_CACHE
   \<and> (\<forall>n. n \<noteq> DYNAMIC_CACHE \<longrightarrow>
         tier (caches (manageCacheSize estimate st)) n = tier (caches st) n)
   \<and> set (storage_keys (caches st)) \<subseteq> set (storage_keys (caches (manageCacheSize estimate st)))"
proof -
  have other: "tier (caches (manageCacheSize estimate st)) n = tier (caches st) n"
    if "n \<noteq> DYNAMIC_CACHE" for n
    using that
    by (simp add: manageCacheSize_def Let_def fold_delete_entry tier_storage_open
             split: option.splits)
  have "storage_keys (caches (manageCacheSize estimate st)) = storage_keys (caches st)
        \<or> storage_keys (caches (manageCacheSize estimate st)) =
            storage_keys (storage_open (caches st) DYNAMIC_CACHE)"
    by (simp add: manageCacheSize_def Let_def fold_delete_entry split: option.splits)
  then have names: "set (storage_keys (caches st)) \<subseteq>
               set (storage_keys (caches (manageCacheSize estimate st)))"
    using storage_keys_open [of "caches st" DYNAMIC_CACHE] by auto
  from other [of STATIC_CACHE] other [of HERITAGE_CACHE] other names tier_names_differ
  show ?thesis by simp
qed

theorem governor_spares_other_tiers_witness:
  "STATIC_CACHE \<noteq> DYNAMIC_CACHE
   \<and> tier (caches (manageCacheSize (Some 200000000) st_warm)) STATIC_CACHE =
       [(site_url ''/styles/main.css'', page_old)]
   \<and> tier (caches (manageCacheSize (Some 200000000) st_warm)) HERITAGE_CACHE =
       [(site_url ''/assets/images/b.jpg'', page_old)]
   \<and> length (tier (caches (manageCacheSize (Some 200000000) st_warm)) DYNAMIC_CACHE) <
       length (tier (caches st_warm) DYNAMIC_CACHE)"
proof -
  have s: "tier (caches st_warm) STATIC_CACHE = [(site_url ''/styles/main.css'', page_old)]"
    and h: "tier (caches st_warm) HERITAGE_CACHE = [(site_url ''/assets/images/b.jpg'', page_old)]"
    and d: "distinct (cache_keys (tier (caches st_warm) DYNAMIC_CACHE))"
    and l: "length (tier (caches st_warm) DYNAMIC_CACHE) = 6"
    by code_simp+
  have m: "MAX_CACHE_SIZE = 104857600"
    by (simp add: MAX_CACHE_SIZE_def)
  have over: "200000000 > MAX_CACHE_SIZE"
    by (simp add: m)
  from governor_spares_other_tiers [of "Some 200000000" st_warm]
       governor_over_ceiling(1) [OF d over] tier_names_differ
  show ?thesis
    by (simp add: s h l floor_fifth)
qed

subsection \<open>Deferred action queues\<close>







subsection \<open>Caching a heritage site on request\<close>

lemma set_filter_Boolean: "set (filter_Boolean xs) = {s. s \<noteq> [] \<and> Some s \<in> set xs}"
  by (induction xs rule: filter_Boolean.induct) auto

lemma cache_url_settled:
  "cache_url e s st =
     (case parse_url e s of
        None \<Rightarrow> st
      | Some u \<Rightarrow>
         (case network e (get_request u) of
            None \<Rightarrow> emit (Fetch (get_request u)) st
          | Some r \<Rightarrow>
              if ok r then snd (open_put HERITAGE_CACHE (get_request u) r
                                  (emit (Fetch (get_request u)) st))
              else emit (Fetch (get_request u)) st))"
  by (simp add: cache_url_def fetch_def split: option.splits prod.splits sum.splits)

lemma url_get_request: "url (get_request u) = u"
  by (simp add: get_request_def)

lemma cache_url_lookup:
  "cache_match (tier (caches (cache_url e s st)) HERITAGE_CACHE) k =
     (if \<exists>r. stored_for e s = Some (k, r) then network e (get_request k)
      else cache_match (tier (caches st) HERITAGE_CACHE) k)"
  by (auto simp: cache_url_settled stored_for_def state_simps url_get_request
           split: option.splits)

lemma cache_url_other:
  "n \<noteq> HERITAGE_CACHE \<Longrightarrow> tier (caches (cache_url e s st)) n = tier (caches st) n"
  by (auto simp: cache_url_settled state_simps split: option.splits)

lemma cache_url_fetches:
  "fetches (trace (cache_url e s st)) =
     fetches (trace st) @ (case parse_url e s of None \<Rightarrow> [] | Some u \<Rightarrow> [get_request u])"
  by (auto simp: cache_url_settled state_simps fetches_append split: option.splits)

lemma fold_cache_url_lookup:
  "cache_match (tier (caches (fold (cache_url e) urls st)) HERITAGE_CACHE) k =
     (if \<exists>s \<in> set urls. \<exists>r. stored_for e s = Some (k, r) then network e (get_request k)
      else cache_match (tier (caches st) HERITAGE_CACHE) k)"
proof (induction urls arbitrary: st)
  case Nil
  then show ?case by simp
next
  case (Cons s urls)
  show ?case
    unfolding fold_simps Cons.IH cache_url_lookup by auto
qed

lemma fold_cache_url_other:
  "n \<noteq> HERITAGE_CACHE \<Longrightarrow> tier (caches (fold (cache_url e) urls st)) n = tier (caches st) n"
  by (induction urls arbitrary: st) (simp_all add: cache_url_other)

lemma fold_cache_url_fetches:
  "fetches (trace (fold (cache_url e) urls st)) =
     fetches (trace st) @ map get_request (List.map_filter (parse_url e) urls)"
  by (induction urls arbitrary: st)
     (simp_all add: cache_url_fetches map_filter_simps split: option.splits)

lemma stored_for_Some:
  "stored_for e s = Some (k, r) \<longleftrightarrow>
     parse_url e s = Some k \<and> network e (get_request k) = Some r \<and> ok r \<and>
     \<not> put_rejects (get_request k) r"
  by (auto simp: stored_for_def split: option.splits)

text \<open>
  C10. A cache-bundle message never completes with an error and touches no tier but
  the heritage one. Of the resource URLs of the bundle, the absent, \<open>null\<close> and empty
  ones are dropped and every other one is fetched, once for each occurrence, whatever
  the others did. An entry that is new in the heritage tier afterwards is a network
  answer with a successful status. The tier holds, for a URL, the network's answer
  exactly when some entry of the bundle has that URL, its fetch was answered with a
  success and the cache accepted the write; for every other URL it holds what it held
  before. So an entry whose fetch is rejected, whose answer is not a success or whose
  write the cache refuses takes nothing from the entries beside it.
\<close>

theorem cacheHeritageSite_per_url:
  assumes "cacheHeritageSite e siteData st = (res, st')"
  shows "res = Inr ()
       \<and> (\<forall>n. n \<noteq> HERITAGE_CACHE \<longrightarrow> tier (caches st') n = tier (caches st) n)
       \<and> (\<forall>k r. cache_match (tier (caches st') HERITAGE_CACHE) k = Some r \<and>
                cache_match (tier (caches st) HERITAGE_CACHE) k \<noteq> Some r \<longrightarrow>
                ok r \<and> network e (get_request k) = Some r)
       \<and> (siteData = None \<longrightarrow>
             tier (caches st') HERITAGE_CACHE = tier (caches st) HERITAGE_CACHE
             \<and> trace st' = trace st)
       \<and> (\<forall>sd. siteData = Some sd \<longrightarrow>
             set (urlsToCache sd) =
               {s. s \<noteq> [] \<and> Some s \<in> set ([imageUrl sd, thumbnailUrl sd, modelUrl sd] @
                    (case audioUrls sd of None \<Rightarrow> [] | Some urls \<Rightarrow> urls))}
           \<and> fetches (trace st') =
               fetches (trace st) @ map get_request (List.map_filter (parse_url e) (urlsToCache sd))
           \<and> (\<forall>s \<in> set (urlsToCache sd). \<forall>k r.
                 parse_url e s = Some k \<and> network e (get_request k) = Some r \<and> ok r \<and>
                 \<not> put_rejects (get_request k) r \<longrightarrow>
                 cache_match (tier (caches st') HERITAGE_CACHE) k = Some r)
           \<and> (\<forall>k. cache_match (tier (caches st') HERITAGE_CACHE) k =
                 (if \<exists>s \<in> set (urlsToCache sd). \<exists>r. stored_for e s = Some (k, r)
                  then network e (get_request k)
                  else cache_match (tier (caches st) HERITAGE_CACHE) k)))"
proof -
  let ?st1 = "st\<lparr>caches := storage_open (caches st) HERITAGE_CACHE\<rparr>"
  let ?H = "\<lambda>s. tier (caches s) HERITAGE_CACHE"
  have c1: "res = Inr ()"
    using assms by (simp add: cacheHeritageSite_def Let_def split: sum.splits)
  have none: "st' = ?st1" if "siteData = None"
    using assms that by (simp add: cacheHeritageSite_def cacheHeritageSite_try_def Let_def)
  have some: "st' = fold (cache_url e) (urlsToCache sd) ?st1" if "siteData = Some sd" for sd
    using assms that by (simp add: cacheHeritageSite_def cacheHeritageSite_try_def Let_def)
  have other: "tier (caches st') n = tier (caches st) n" if "n \<noteq> HERITAGE_CACHE" for n
  proof (cases siteData)
    case None
    then show ?thesis by (simp add: none tier_storage_open)
  next
    case (Some sd)
    with that show ?thesis by (simp add: some fold_cache_url_other tier_storage_open)
  qed
  have c2: "\<forall>n. n \<noteq> HERITAGE_CACHE \<longrightarrow> tier (caches st') n = tier (caches st) n"
    using other by simp
  have look: "cache_match (?H st') k =
      (if \<exists>s \<in> set (urlsToCache sd). \<exists>r. stored_for e s = Some (k, r)
       then network e (get_request k)
       else cache_match (?H st) k)" if "siteData = Some sd" for sd k
    by (simp add: some [OF that] fold_cache_url_lookup tier_storage_open)
  have fresh: "ok r' \<and> network e (get_request k) = Some r'"
    if new: "cache_match (?H st') k = Some r'" and old: "cache_match (?H st) k \<noteq> Some r'"
    for k r'
  proof (cases siteData)
    case None
    with new old show ?thesis by (simp add: none tier_storage_open)
  next
    case (Some sd)
    show ?thesis
    proof (cases "\<exists>s \<in> set (urlsToCache sd). \<exists>r. stored_for e s = Some (k, r)")
      case True
      then obtain s' r'' where "stored_for e s' = Some (k, r'')"
        by blast
      then have "network e (get_request k) = Some r''" and "ok r''"
        by (simp_all add: stored_for_Some)
      moreover from True new have "network e (get_request k) = Some r'"
        by (simp add: look [OF Some])
      ultimately show ?thesis by simp
    next
      case False
      with new old show ?thesis by (simp add: look [OF Some])
    qed
  qed
  have c3: "\<forall>k r. cache_match (?H st') k = Some r \<and> cache_match (?H st) k \<noteq> Some r \<longrightarrow>
      ok r \<and> network e (get_request k) = Some r"
    using fresh by blast
  have c4: "siteData = None \<longrightarrow> ?H st' = ?H st \<and> trace st' = trace st"
    by (auto simp: none tier_storage_open)
  have c5: "\<forall>sd. siteData = Some sd \<longrightarrow>
      set (urlsToCache sd) =
        {s. s \<noteq> [] \<and> Some s \<in> set ([imageUrl sd, thumbnailUrl sd, modelUrl sd] @
             (case audioUrls sd of None \<Rightarrow> [] | Some urls \<Rightarrow> urls))}
      \<and> fetches (trace st') =
          fetches (trace st) @ map get_request (List.map_filter (parse_url e) (urlsToCache sd))
      \<and> (\<forall>s \<in> set (urlsToCache sd). \<forall>k r.
            parse_url e s = Some k \<and> network e (get_request k) = Some r \<and> ok r \<and>
            \<not> put_rejects (get_request k) r \<longrightarrow>
            cache_match (?H st') k = Some r)
      \<and> (\<forall>k. cache_match (?H st') k =
            (if \<exists>s \<in> set (urlsToCache sd). \<exists>r. stored_for e s = Some (k, r)
             then network e (get_request k)
             else cache_match (?H st) k))"
  proof (intro allI impI)
    fix sd
    assume sd: "siteData = Some sd"
    have urls: "set (urlsToCache sd) =
        {s. s \<noteq> [] \<and> Some s \<in> set ([imageUrl sd, thumbnailUrl sd, modelUrl sd] @
             (case audioUrls sd of None \<Rightarrow> [] | Some urls \<Rightarrow> urls))}"
      unfolding urlsToCache_def by (rule set_filter_Boolean)
    have net: "fetches (trace st') =
        fetches (trace st) @ map get_request (List.map_filter (parse_url e) (urlsToCache sd))"
      by (simp add: some [OF sd] fold_cache_url_fetches)
    have good: "\<forall>s \<in> set (urlsToCache sd). \<forall>k r.
        parse_url e s = Some k \<and> network e (get_request k) = Some r \<and> ok r \<and>
        \<not> put_rejects (get_request k) r \<longrightarrow>
        cache_match (?H st') k = Some r"
    proof (intro ballI allI impI)
      fix s k r
      assume "s \<in> set (urlsToCache sd)"
        and "parse_url e s = Some k \<and> network e (get_request k) = Some r \<and> ok r \<and>
             \<not> put_rejects (get_request k) r"
      then have "s \<in> set (urlsToCache sd)" "stored_for e s = Some (k, r)"
        "network e (get_request k) = Some r"
        by (simp_all add: stored_for_Some)
      then have "\<exists>s \<in> set (urlsToCache sd). \<exists>r. stored_for e s = Some (k, r)"
        by blast
      with \<open>network e (get_request k) = Some r\<close> show "cache_match (?H st') k = Some r"
        by (simp add: look [OF sd])
    qed
    have all: "\<forall>k. cache_match (?H st') k =
        (if \<exists>s \<in> set (urlsToCache sd). \<exists>r. stored_for e s = Some (k, r)
         then network e (get_request k)
         else cache_match (?H st) k)"
      by (intro allI) (rule look [OF sd])
    show "set (urlsToCache sd) =
        {s. s \<noteq> [] \<and> Some s \<in> set ([imageUrl sd, thumbnailUrl sd, modelUrl sd] @
             (case audioUrls sd of None \<Rightarrow> [] | Some urls \<Rightarrow> urls))}
      \<and> fetches (trace st') =
          fetches (trace st) @ map get_request (List.map_filter (parse_url e) (urlsToCache sd))
      \<and> (\<forall>s \<in> set (urlsToCache sd). \<forall>k r.
            parse_url e s = Some k \<and> network e (get_request k) = Some r \<and> ok r \<and>
            \<not> put_rejects (get_request k) r \<longrightarrow>
            cache_match (?H st') k = Some r)
      \<and> (\<forall>k. cache_match (?H st') k =
            (if \<exists>s \<in> set (urlsToCache sd). \<exists>r. stored_for e s = Some (k, r)
             then network e (get_request k)
             else cache_match (?H st) k))"
      by (rule conjI [OF urls conjI [OF net conjI [OF good all]]])
  qed
  show ?thesis
    by (rule conjI [OF c1 conjI [OF c2 conjI [OF c3 conjI [OF c4 c5]]]])
qed

theorem cacheHeritageSite_per_url_witness:
  "urlsToCache site_bundle =
     [''/assets/images/a.jpg'', ''/assets/models/m.glb'', ''/assets/audio/p.mp3'',
      ''/assets/audio/t.mp3'']
   \<and> network env_patchy (get_request (site_url ''/assets/images/a.jpg'')) = None
   \<and> network env_patchy (get_request (site_url ''/assets/models/m.glb'')) = Some page_404
   \<and> \<not> ok page_404
   \<and> network env_patchy (get_request (site_url ''/assets/audio/p.mp3'')) = Some page_206
   \<and> ok page_206 \<and> put_rejects (get_request (site_url ''/assets/audio/p.mp3'')) page_206
   \<and> network env_patchy (get_request (site_url ''/assets/audio/t.mp3'')) = Some page_200
   \<and> ok page_200 \<and> \<not> put_rejects (get_request (site_url ''/assets/audio/t.mp3'')) page_200
   \<and> fst (cacheHeritageSite env_patchy (Some site_bundle) st_warm) = Inr ()
   \<and> cache_match (tier (caches (snd (cacheHeritageSite env_patchy (Some site_bundle) st_warm)))
        HERITAGE_CACHE) (site_url ''/assets/audio/t.mp3'') = Some page_200
   \<and> cache_match (tier (caches (snd (cacheHeritageSite env_patchy (Some site_bundle) st_warm)))
        HERITAGE_CACHE) (site_url ''/assets/audio/p.mp3'') = None
   \<and> cache_match (tier (caches (snd (cacheHeritageSite env_patchy (Some site_bundle) st_warm)))
        HERITAGE_CACHE) (site_url ''/assets/images/a.jpg'') = None
   \<and> cache_match (tier (caches (snd (cacheHeritageSite env_patchy (Some site_bundle) st_warm)))
        HERITAGE_CACHE) (site_url ''/assets/models/m.glb'') = None
   \<and> tier (caches (snd (cacheHeritageSite env_patchy (Some site_bundle) st_warm))) STATIC_CACHE =
        tier (caches st_warm) STATIC_CACHE
   \<and> fetches (trace (snd (cacheHeritageSite env_patchy (Some site_bundle) st_warm))) =
        [get_request (site_url ''/assets/images/a.jpg''),
         get_request (site_url ''/assets/models/m.glb''),
         get_request (site_url ''/assets/audio/p.mp3''),
         get_request (site_url ''/assets/audio/t.mp3'')]"
proof -
  have u: "urlsToCache site_bundle =
      [''/assets/images/a.jpg'', ''/assets/models/m.glb'', ''/assets/audio/p.mp3'',
       ''/assets/audio/t.mp3'']"
    by code_simp
  have a: "stored_for env_patchy ''/assets/images/a.jpg'' = None"
    and m: "stored_for env_patchy ''/assets/models/m.glb'' = None"
    and p: "stored_for env_patchy ''/assets/audio/p.mp3'' = None"
    and t: "stored_for env_patchy ''/assets/audio/t.mp3'' =
              Some (site_url ''/assets/audio/t.mp3'', page_200)"
    by code_simp+
  have n: "network env_patchy (get_request (site_url ''/assets/images/a.jpg'')) = None"
    "network env_patchy (get_request (site_url ''/assets/models/m.glb'')) = Some page_404"
    "\<not> ok page_404"
    "network env_patchy (get_request (site_url ''/assets/audio/p.mp3'')) = Some page_206"
    "ok page_206" "put_rejects (get_request (site_url ''/assets/audio/p.mp3'')) page_206"
    "network env_patchy (get_request (site_url ''/assets/audio/t.mp3'')) = Some page_200"
    "ok page_200" "\<not> put_rejects (get_request (site_url ''/assets/audio/t.mp3'')) page_200"
    by code_simp+
  have before:
    "cache_match (tier (caches st_warm) HERITAGE_CACHE) (site_url ''/assets/images/a.jpg'') = None"
    "cache_match (tier (caches st_warm) HERITAGE_CACHE) (site_url ''/assets/models/m.glb'') = None"
    "cache_match (tier (caches st_warm) HERITAGE_CACHE) (site_url ''/assets/audio/p.mp3'') = None"
    "fetches (trace st_warm) = []"
    by code_simp+
  have q: "List.map_filter (parse_url env_patchy)
      [''/assets/images/a.jpg'', ''/assets/models/m.glb'', ''/assets/audio/p.mp3'',
       ''/assets/audio/t.mp3''] =
      [site_url ''/assets/images/a.jpg'', site_url ''/assets/models/m.glb'',
       site_url ''/assets/audio/p.mp3'', site_url ''/assets/audio/t.mp3'']"
    by code_simp
  have d: "STATIC_CACHE \<noteq> HERITAGE_CACHE"
    by (rule tier_names_differ)
  have inj: "site_url x = site_url y \<longleftrightarrow> x = y" for x y
    by (simp add: site_url_def)
  from cacheHeritageSite_per_url
         [where e = env_patchy and siteData = "Some site_bundle" and st = st_warm,
          OF surjective_pairing]
  have "fst (cacheHeritageSite env_patchy (Some site_bundle) st_warm) = Inr ()"
    and "tier (caches (snd (cacheHeritageSite env_patchy (Some site_bundle) st_warm))) STATIC_CACHE =
        tier (caches st_warm) STATIC_CACHE"
    and "fetches (trace (snd (cacheHeritageSite env_patchy (Some site_bundle) st_warm))) =
        fetches (trace st_warm) @
        map get_request (List.map_filter (parse_url env_patchy) (urlsToCache site_bundle))"
    and "\<And>k. cache_match
          (tier (caches (snd (cacheHeritageSite env_patchy (Some site_bundle) st_warm)))
             HERITAGE_CACHE) k =
        (if \<exists>s \<in> set (urlsToCache site_bundle). \<exists>r. stored_for env_patchy s = Some (k, r)
         then network env_patchy (get_request k)
         else cache_match (tier (caches st_warm) HERITAGE_CACHE) k)"
    using d by simp_all
  with u a m p t n before q show ?thesis
    by (simp add: inj)
qed

end
